theory Spec2Isabelle
  imports Main "HOL-Library.Char_ord" "HOL-Library.List_Lexorder" "HOL-Library.AList"
    "HOL-Library.Multiset"
begin

section \<open>Text primitives of ris2csv.py\<close>

text \<open>
  Python strings are modelled as \<open>string\<close>; a \<open>char\<close> stands for a code point below 256.
  \<open>is_space\<close> is \<open>str.isspace\<close> on that range, which is also what \<open>\s\<close> matches in the
  regular expression of \<open>parse_ris_file\<close>.
\<close>

definition LF :: char where
  "LF = CHR 0x0A"

definition CR :: char where
  "CR = CHR 0x0D"

definition is_space :: "char \<Rightarrow> bool" where
  "is_space c = (c \<in> set [CHR 0x09, CHR 0x0A, CHR 0x0B, CHR 0x0C, CHR 0x0D,
                            CHR 0x1C, CHR 0x1D, CHR 0x1E, CHR 0x1F, CHR 0x20,
                            CHR 0x85, CHR 0xA0])"

text \<open>\<open>s.strip()\<close>: leading and trailing whitespace removed.\<close>

definition strip :: "string \<Rightarrow> string" where
  "strip s = rev (dropWhile is_space (rev (dropWhile is_space s)))"

text \<open>\<open>s.startswith(p)\<close>.\<close>

definition startswith :: "string \<Rightarrow> string \<Rightarrow> bool" where
  "startswith s p = (take (length p) s = p)"

text \<open>The character class \<open>[A-Z0-9]\<close>.\<close>

definition is_tag_char :: "char \<Rightarrow> bool" where
  "is_tag_char c = ((CHR ''A'' \<le> c \<and> c \<le> CHR ''Z'') \<or> (CHR ''0'' \<le> c \<and> c \<le> CHR ''9''))"

text \<open>
  \<open>re.match(r'^([A-Z0-9]{2})\s*-\s*(.*)$', line)\<close>, returning the two groups. Both \<open>\s*\<close>
  are greedy and no backtracking can help them; \<open>.\<close> matches everything but a line feed,
  and \<open>$\<close> matches at the end of the string or before a line feed that ends it.
\<close>

definition re_match_tag_line :: "string \<Rightarrow> (string \<times> string) option" where
  "re_match_tag_line line =
     (case line of
        c1 # c2 # rest \<Rightarrow>
          if is_tag_char c1 \<and> is_tag_char c2 then
            (case dropWhile is_space rest of
               [] \<Rightarrow> None
             | d # rest' \<Rightarrow>
                 if d = CHR ''-'' then
                   (let v = dropWhile is_space rest';
                        g = takeWhile (\<lambda>c. c \<noteq> LF) v;
                        r = dropWhile (\<lambda>c. c \<noteq> LF) v
                    in if r = [] \<or> r = [LF] then Some ([c1, c2], g) else None)
                 else None)
          else None
      | _ \<Rightarrow> None)"

text \<open>
  \<open>f.readlines()\<close> on a file opened in text mode: the text is cut after every line end,
  and the line ends \<open>\n\<close>, \<open>\r\<close> and \<open>\r\n\<close> are all read as \<open>\n\<close>.
\<close>

fun readlines :: "string \<Rightarrow> string list" where
  "readlines [] = []"
| "readlines [c] = (if c = LF \<or> c = CR then [[LF]] else [[c]])"
| "readlines (c # c' # cs) =
     (if c = LF then [LF] # readlines (c' # cs)
      else if c = CR then
        (if c' = LF then [LF] # readlines cs else [LF] # readlines (c' # cs))
      else (case readlines (c' # cs) of
              [] \<Rightarrow> [[c]]
            | l # ls \<Rightarrow> (c # l) # ls))"

section \<open>Records and the record parser\<close>

text \<open>
  A reference is a Python dict from tag to either a string or a list of strings. The dict
  is an association list in insertion order; \<open>AList.update\<close> is \<open>d[k] = v\<close> (an existing
  key keeps its place), \<open>map_of\<close> is the lookup.
\<close>

datatype rvalue = Scalar string | Multi "string list"

type_synonym reference = "(string \<times> rvalue) list"

text \<open>Lines 60 to 66 of \<open>parse_ris_file\<close>: storing a value under a tag.\<close>

definition store_value :: "reference \<Rightarrow> string \<Rightarrow> string \<Rightarrow> reference" where
  "store_value current_ref tag v =
     (case map_of current_ref tag of
        Some (Multi xs) \<Rightarrow> AList.update tag (Multi (xs @ [v])) current_ref
      | Some (Scalar x) \<Rightarrow> AList.update tag (Multi [x, v]) current_ref
      | None \<Rightarrow> AList.update tag (Scalar v) current_ref)"

text \<open>\<open>current_ref and 'TY' in current_ref\<close>.\<close>

definition emittable :: "reference \<Rightarrow> bool" where
  "emittable current_ref = (current_ref \<noteq> [] \<and> map_of current_ref ''TY'' \<noteq> None)"

text \<open>
  The body of the loop of \<open>parse_ris_file\<close> (lines 45 to 66), on the state
  \<open>(references, current_ref)\<close>.
\<close>

definition parse_line :: "reference list \<times> reference \<Rightarrow> string \<Rightarrow> reference list \<times> reference" where
  "parse_line st raw =
     (case st of (references, current_ref) \<Rightarrow>
        let line = strip raw in
        if line = [] then st
        else if startswith line ''ER'' then
          (if emittable current_ref then (references @ [current_ref], []) else st)
        else
          (case re_match_tag_line line of
             None \<Rightarrow> st
           | Some (tag, g) \<Rightarrow>
               let v = strip g in
               if v \<noteq> [] \<or> tag = ''TY'' then (references, store_value current_ref tag v)
               else st))"

fun parse_loop :: "reference list \<times> reference \<Rightarrow> string list \<Rightarrow> reference list \<times> reference" where
  "parse_loop st [] = st"
| "parse_loop st (l # ls) = parse_loop (parse_line st l) ls"

text \<open>\<open>parse_ris_file\<close> on the lines that \<open>readlines\<close> returned, with the final flush.\<close>

definition parse_ris_lines :: "string list \<Rightarrow> reference list" where
  "parse_ris_lines lines =
     (case parse_loop ([], []) lines of (references, current_ref) \<Rightarrow>
        if emittable current_ref then references @ [current_ref] else references)"

definition parse_ris_text :: "string \<Rightarrow> reference list" where
  "parse_ris_text txt = parse_ris_lines (readlines txt)"

section \<open>Files, exceptions and diagnostics\<close>

text \<open>
  A file holds text, or (for a file read and written through Python's \<open>csv\<close> module) the
  rows that \<open>csv.reader\<close> yields and \<open>csv.writer\<close> was given; the CSV syntax itself is not
  modelled. A file that is missing, or does not hold what the reader expects, raises
  \<open>IOError\<close>; opening a file for writing always succeeds.
\<close>

datatype content = Text string | Table "string list list"

datatype exn = ValueError | IOError | StopIteration | TypeError | KeyError

text \<open>The messages printed by the program, one constructor for each \<open>print\<close> call.\<close>

datatype diag =
    SkipInvalidRow nat string
  | EmptyTag nat string
  | TYNotFound "string list"
  | LoadedKeys "string list"
  | ErrorLoading string exn
  | HeaderFields string "string list"
  | TYMissingInHeader string
  | MissingTYValue nat string
  | Converted string string
  | ErrorConverting string string exn
  | NoCsvFiles string
  | HeaderMismatchWarning string
  | Merged nat string nat
  | ErrorMerging string exn
  | HeaderMismatchError string
  | SkippingReference nat string
  | NotFound string
  | NoRisFiles string
  | MergedNotFound string

datatype event = Print diag | OpenRead string | OpenWrite string

record world =
  files :: "string \<rightharpoonup> content"
  events :: "event list"

definition emit :: "event \<Rightarrow> world \<Rightarrow> world" where
  "emit e w = w\<lparr>events := events w @ [e]\<rparr>"

definition prints :: "diag list \<Rightarrow> world \<Rightarrow> world" where
  "prints ds w = w\<lparr>events := events w @ map Print ds\<rparr>"

definition write_file :: "string \<Rightarrow> content \<Rightarrow> world \<Rightarrow> world" where
  "write_file path c w = w\<lparr>files := (files w)(path \<mapsto> c), events := events w @ [OpenWrite path]\<rparr>"

section \<open>Schema loader\<close>

text \<open>The value stored for a tag: \<open>{'description': ..., 'notes': ...}\<close>.\<close>

record tag_info =
  description :: string
  notes_text :: string

type_synonym standards = "(string \<times> tag_info) list"

text \<open>The loop of \<open>load_ris_standards\<close> (lines 13 to 24); \<open>i\<close> is the row number.\<close>

fun load_rows :: "string \<Rightarrow> nat \<Rightarrow> string list list \<Rightarrow> standards \<Rightarrow> diag list \<Rightarrow> standards \<times> diag list" where
  "load_rows f i [] standards ds = (standards, ds)"
| "load_rows f i (row # rows) standards ds =
     (if row = [] \<or> length row < 2 then load_rows f (i + 1) rows standards (ds @ [SkipInvalidRow i f])
      else
        let tag = strip (row ! 0) in
        if tag \<noteq> [] then
          load_rows f (i + 1) rows
            (AList.update tag
               \<lparr>description = (if length row > 1 then row ! 1 else []),
                notes_text = (if length row > 3 then row ! 3 else [])\<rparr> standards) ds
        else load_rows f (i + 1) rows standards (ds @ [EmptyTag i f]))"

text \<open>\<open>sorted(standards.keys())\<close>: strings are compared by code point, lexicographically.\<close>

definition sorted_keys :: "standards \<Rightarrow> string list" where
  "sorted_keys standards = sort (map fst standards)"

definition load_ris_standards :: "string \<Rightarrow> world \<Rightarrow> (exn + standards) \<times> world" where
  "load_ris_standards standards_file w =
     (case files w standards_file of
        Some (Table rows) \<Rightarrow>
          (case load_rows standards_file 1 rows [] [] of
             (standards, ds) \<Rightarrow>
               let w1 = prints ds (emit (OpenRead standards_file) w) in
               if map_of standards ''TY'' = None then
                 (Inl ValueError,
                  emit (Print (ErrorLoading standards_file ValueError))
                    (emit (Print (TYNotFound (sorted_keys standards))) w1))
               else (Inr standards, emit (Print (LoadedKeys (sorted_keys standards))) w1))
      | _ \<Rightarrow> (Inl IOError, emit (Print (ErrorLoading standards_file IOError)) w))"

section \<open>Reading a RIS file\<close>

definition parse_ris_file :: "string \<Rightarrow> world \<Rightarrow> (exn + reference list) \<times> world" where
  "parse_ris_file ris_file w =
     (case files w ris_file of
        Some (Text txt) \<Rightarrow> (Inr (parse_ris_text txt), emit (OpenRead ris_file) w)
      | _ \<Rightarrow> (Inl IOError, w))"

section \<open>Rows as csv.DictReader presents them\<close>

text \<open>
  A cell of a \<open>DictReader\<close> row is a string, or \<open>None\<close> where the row is shorter than the
  header. \<open>AList.updates ks vs []\<close> is \<open>dict(zip(ks, vs))\<close>. The entry that \<open>DictReader\<close>
  stores under the key \<open>None\<close> for a row longer than the header is left out: no lookup of
  the program can reach it. Empty rows are skipped.
\<close>

type_synonym csvrow = "(string \<times> string option) list"

definition dict_row :: "string list \<Rightarrow> string list \<Rightarrow> csvrow" where
  "dict_row fieldnames row =
     AList.updates (drop (length row) fieldnames)
       (replicate (length fieldnames - length row) None)
       (AList.updates fieldnames (map Some row) [])"

definition dictreader_rows :: "string list \<Rightarrow> string list list \<Rightarrow> csvrow list" where
  "dictreader_rows fieldnames rows = map (dict_row fieldnames) (filter (\<lambda>r. r \<noteq> []) rows)"

section \<open>Tabular projector\<close>

text \<open>The source's list \<open>fields\<close> is written \<open>flds\<close> throughout.\<close>


text \<open>\<open>sep.join(xs)\<close>.\<close>

fun join :: "string \<Rightarrow> string list \<Rightarrow> string" where
  "join sep [] = []"
| "join sep [x] = x"
| "join sep (x # y # ys) = x @ sep @ join sep (y # ys)"

text \<open>The inner loop of \<open>convert_ris_to_csv\<close> (lines 88 to 92), appending to \<open>row\<close>.\<close>

fun build_row :: "reference \<Rightarrow> string list \<Rightarrow> string list \<Rightarrow> string list" where
  "build_row ref [] row = row"
| "build_row ref (field # flds) row =
     build_row ref flds
       (row @ [case map_of ref field of
                 None \<Rightarrow> []
               | Some (Multi vs) \<Rightarrow> join '';'' vs
               | Some (Scalar s) \<Rightarrow> s])"

text \<open>The outer loop (lines 86 to 93); \<open>table\<close> is what the writer has written so far.\<close>

fun write_rows :: "string list \<Rightarrow> reference list \<Rightarrow> string list list \<Rightarrow> string list list" where
  "write_rows flds [] table = table"
| "write_rows flds (ref # references) table =
     write_rows flds references (table @ [build_row ref flds []])"

text \<open>The validation loop (lines 101 to 103).\<close>

fun validate_rows :: "string \<Rightarrow> nat \<Rightarrow> csvrow list \<Rightarrow> diag list \<Rightarrow> exn option \<times> diag list" where
  "validate_rows f i [] ds = (None, ds)"
| "validate_rows f i (row # rows) ds =
     (case map_of row ''TY'' of
        None \<Rightarrow> (Some KeyError, ds)
      | Some c \<Rightarrow>
          validate_rows f (i + 1) rows
            (if c = None \<or> c = Some [] then ds @ [MissingTYValue i f] else ds))"

definition convert_ris_to_csv :: "string \<Rightarrow> string \<Rightarrow> string \<Rightarrow> world \<Rightarrow> world" where
  "convert_ris_to_csv ris_file standards_file output_csv w =
     (case load_ris_standards standards_file w of
        (Inl e, w1) \<Rightarrow> emit (Print (ErrorConverting ris_file output_csv e)) w1
      | (Inr standards, w1) \<Rightarrow>
          (case parse_ris_file ris_file w1 of
             (Inl e, w2) \<Rightarrow> emit (Print (ErrorConverting ris_file output_csv e)) w2
           | (Inr references, w2) \<Rightarrow>
               let flds = sorted_keys standards;
                   w3 = emit (Print (HeaderFields output_csv flds)) w2;
                   w4 = write_file output_csv (Table (write_rows flds references [flds])) w3;
                   w5 = emit (OpenRead output_csv) w4
               in (case files w5 output_csv of
                     Some (Table (fieldnames # rows)) \<Rightarrow>
                       if ''TY'' \<notin> set fieldnames then emit (Print (TYMissingInHeader output_csv)) w5
                       else
                         (case validate_rows output_csv 1 (dictreader_rows fieldnames rows) [] of
                            (Some e, ds) \<Rightarrow>
                              emit (Print (ErrorConverting ris_file output_csv e)) (prints ds w5)
                          | (None, ds) \<Rightarrow> emit (Print (Converted ris_file output_csv)) (prints ds w5))
                   | Some (Table []) \<Rightarrow> emit (Print (ErrorConverting ris_file output_csv TypeError)) w5
                   | _ \<Rightarrow> emit (Print (ErrorConverting ris_file output_csv IOError)) w5)))"

section \<open>Tabular merger\<close>

text \<open>
  \<open>unique_rows\<close> is a Python set of tuples. It is modelled as a duplicate-free list;
  the order in which Python iterates over the set is unspecified, so only the set of the
  list is meaningful.
\<close>

fun add_rows :: "string list list \<Rightarrow> string list list \<Rightarrow> string list list" where
  "add_rows [] unique_rows = unique_rows"
| "add_rows (row # rows) unique_rows =
     add_rows rows (if row \<in> set unique_rows then unique_rows else unique_rows @ [row])"

text \<open>
  The loop over \<open>csv_files\<close> (lines 124 to 135). \<open>next(reader)\<close> on a file with no row
  raises \<open>StopIteration\<close>, which leaves the loop.
\<close>

fun merge_loop ::
  "(string \<rightharpoonup> content) \<Rightarrow> string \<Rightarrow> string list \<Rightarrow> string list \<Rightarrow>
   string list list \<Rightarrow> event list \<Rightarrow> (exn + string list list) \<times> event list" where
  "merge_loop fs merged_output_csv flds [] unique_rows evs = (Inr unique_rows, evs)"
| "merge_loop fs merged_output_csv flds (csv_file # csv_files) unique_rows evs =
     (if csv_file = merged_output_csv then
        merge_loop fs merged_output_csv flds csv_files unique_rows evs
      else
        (case fs csv_file of
           Some (Table []) \<Rightarrow> (Inl StopIteration, evs @ [OpenRead csv_file])
         | Some (Table (header # rows)) \<Rightarrow>
             if sort header \<noteq> flds then
               merge_loop fs merged_output_csv flds csv_files unique_rows
                 (evs @ [OpenRead csv_file, Print (HeaderMismatchWarning csv_file)])
             else
               merge_loop fs merged_output_csv flds csv_files (add_rows rows unique_rows)
                 (evs @ [OpenRead csv_file])
         | _ \<Rightarrow> (Inl IOError, evs)))"

text \<open>
  The operating system's part: \<open>glob_files fs folder pattern\<close> is
  \<open>glob.glob(os.path.join(folder, pattern))\<close> on the file system \<open>fs\<close>, and
  \<open>csv_path folder ris_file\<close> is \<open>os.path.join(folder, Path(ris_file).stem + ".csv")\<close>.
  Both are parameters of the model.
\<close>

record os_env =
  glob_files :: "(string \<rightharpoonup> content) \<Rightarrow> string \<Rightarrow> string \<Rightarrow> string list"
  csv_path :: "string \<Rightarrow> string \<Rightarrow> string"

definition merge_csv_files :: "os_env \<Rightarrow> string \<Rightarrow> string \<Rightarrow> string \<Rightarrow> world \<Rightarrow> world" where
  "merge_csv_files env csv_folder merged_output_csv standards_file w =
     (case load_ris_standards standards_file w of
        (Inl e, w1) \<Rightarrow> emit (Print (ErrorMerging merged_output_csv e)) w1
      | (Inr standards, w1) \<Rightarrow>
          let flds = sorted_keys standards;
              csv_files = glob_files env (files w1) csv_folder ''*.csv''
          in if csv_files = [] then emit (Print (NoCsvFiles csv_folder)) w1
             else
               (case merge_loop (files w1) merged_output_csv flds csv_files [] [] of
                  (Inl e, evs) \<Rightarrow>
                    emit (Print (ErrorMerging merged_output_csv e)) (w1\<lparr>events := events w1 @ evs\<rparr>)
                | (Inr unique_rows, evs) \<Rightarrow>
                    emit (Print (Merged (length csv_files) merged_output_csv (length unique_rows)))
                      (write_file merged_output_csv (Table (flds # unique_rows))
                         (w1\<lparr>events := events w1 @ evs\<rparr>))))"

section \<open>Record serializer\<close>

text \<open>\<open>s.lower()\<close> on code points below 256.\<close>

definition lower_char :: "char \<Rightarrow> char" where
  "lower_char c =
     (if (CHR ''A'' \<le> c \<and> c \<le> CHR ''Z'') \<or> (CHR 0xC0 \<le> c \<and> c \<le> CHR 0xDE \<and> c \<noteq> CHR 0xD7)
      then char_of (of_char c + (32::nat)) else c)"

definition lower :: "string \<Rightarrow> string" where
  "lower s = map lower_char s"

text \<open>\<open>p in s\<close> for strings.\<close>

fun contains :: "string \<Rightarrow> string \<Rightarrow> bool" where
  "contains [] p = (p = [])"
| "contains (c # cs) p = (startswith (c # cs) p \<or> contains cs p)"

text \<open>\<open>s.split(d)\<close> for a one-character separator.\<close>

fun split_on :: "char \<Rightarrow> string \<Rightarrow> string list" where
  "split_on d [] = [[]]"
| "split_on d (c # cs) =
     (if c = d then [] # split_on d cs
      else (case split_on d cs of
              [] \<Rightarrow> [[c]]
            | p # ps \<Rightarrow> (c # p) # ps))"

text \<open>The set comprehension of lines 155 and 156; only membership in it is used.\<close>

definition multi_value_fields :: "standards \<Rightarrow> string list" where
  "multi_value_fields standards =
     map fst (filter (\<lambda>(tag, info). contains (lower (notes_text info)) ''each'' \<and>
                                     contains (lower (notes_text info)) ''line'') standards)"

text \<open>Lines 180 to 182: one line for every piece that is not blank.\<close>

fun write_values :: "string \<Rightarrow> string list \<Rightarrow> string \<Rightarrow> string" where
  "write_values field [] out = out"
| "write_values field (v # vs) out =
     write_values field vs
       (if strip v \<noteq> [] then out @ field @ ''  - '' @ strip v @ [LF] else out)"

text \<open>
  Lines 174 to 184: the loop over \<open>fields\<close> for one row; \<open>out\<close> is the text written to
  the RIS file so far. \<open>row[field]\<close> raises \<open>KeyError\<close> for a missing key.
\<close>

fun write_fields :: "string list \<Rightarrow> csvrow \<Rightarrow> string list \<Rightarrow> string \<Rightarrow> exn option \<times> string" where
  "write_fields mvf row [] out = (None, out)"
| "write_fields mvf row (field # flds) out =
     (if field = ''TY'' \<or> field = ''ER'' then write_fields mvf row flds out
      else
        (case map_of row field of
           None \<Rightarrow> (Some KeyError, out)
         | Some None \<Rightarrow> write_fields mvf row flds out
         | Some (Some c) \<Rightarrow>
             if c = [] then write_fields mvf row flds out
             else if field \<in> set mvf then
               write_fields mvf row flds (write_values field (split_on (CHR '';'') c) out)
             else write_fields mvf row flds (out @ field @ ''  - '' @ c @ [LF])))"

text \<open>Lines 165 to 187: the loop over the rows; \<open>i\<close> is the reference number.\<close>

fun write_refs ::
  "string \<Rightarrow> string list \<Rightarrow> string list \<Rightarrow> nat \<Rightarrow> csvrow list \<Rightarrow> string \<Rightarrow> diag list \<Rightarrow>
   exn option \<times> string \<times> diag list" where
  "write_refs csv_file flds mvf i [] out ds = (None, out, ds)"
| "write_refs csv_file flds mvf i (row # rows) out ds =
     (case map_of row ''TY'' of
        None \<Rightarrow> (Some KeyError, out, ds)
      | Some None \<Rightarrow>
          write_refs csv_file flds mvf (i + 1) rows out (ds @ [SkippingReference i csv_file])
      | Some (Some ty) \<Rightarrow>
          if ty = [] then
            write_refs csv_file flds mvf (i + 1) rows out (ds @ [SkippingReference i csv_file])
          else
            (case write_fields mvf row flds (out @ ''TY  - '' @ ty @ [LF]) of
               (Some e, out') \<Rightarrow> (Some e, out', ds)
             | (None, out') \<Rightarrow>
                 write_refs csv_file flds mvf (i + 1) rows (out' @ ''ER  - '' @ [LF, LF]) ds))"

definition convert_csv_to_ris :: "string \<Rightarrow> string \<Rightarrow> string \<Rightarrow> world \<Rightarrow> world" where
  "convert_csv_to_ris csv_file standards_file output_ris w =
     (case load_ris_standards standards_file w of
        (Inl e, w1) \<Rightarrow> emit (Print (ErrorConverting csv_file output_ris e)) w1
      | (Inr standards, w1) \<Rightarrow>
          let flds = sorted_keys standards;
              mvf = multi_value_fields standards
          in (case files w1 csv_file of
                Some (Table []) \<Rightarrow>
                  emit (Print (ErrorConverting csv_file output_ris TypeError))
                    (emit (OpenRead csv_file) w1)
              | Some (Table (fieldnames # rows)) \<Rightarrow>
                  let w2 = emit (OpenRead csv_file) w1 in
                  if sort fieldnames \<noteq> flds then emit (Print (HeaderMismatchError csv_file)) w2
                  else
                    (case write_refs csv_file flds mvf 1 (dictreader_rows fieldnames rows) [] [] of
                       (Some e, out, ds) \<Rightarrow>
                         emit (Print (ErrorConverting csv_file output_ris e))
                           (prints ds (write_file output_ris (Text out) w2))
                     | (None, out, ds) \<Rightarrow>
                         emit (Print (Converted csv_file output_ris))
                           (prints ds (write_file output_ris (Text out) w2)))
              | _ \<Rightarrow> emit (Print (ErrorConverting csv_file output_ris IOError)) w1))"

section \<open>The orchestration\<close>

fun convert_all :: "os_env \<Rightarrow> string \<Rightarrow> string \<Rightarrow> string list \<Rightarrow> world \<Rightarrow> world" where
  "convert_all env standards_file csv_output_folder [] w = w"
| "convert_all env standards_file csv_output_folder (ris_file # ris_files) w =
     convert_all env standards_file csv_output_folder ris_files
       (convert_ris_to_csv ris_file standards_file (csv_path env csv_output_folder ris_file) w)"

definition backslash :: char where
  "backslash = CHR 0x5C"

definition ris_folder :: string where
  "ris_folder = ''.'' @ [backslash] @ ''RIS''"

definition standards_path :: string where
  "standards_path = ''.'' @ [backslash] @ ''RIS_stds.csv''"

definition csv_output_folder :: string where
  "csv_output_folder = ''.'' @ [backslash] @ ''CSV''"

definition merged_output_csv :: string where
  "merged_output_csv = ''.'' @ [backslash] @ ''merged_output.csv''"

definition merged_output_ris :: string where
  "merged_output_ris = ''.'' @ [backslash] @ ''merged_output.ris''"

text \<open>
  \<open>main\<close>; \<open>os.makedirs\<close> has no counterpart, since directories are not modelled, and
  \<open>os.path.exists\<close> is the domain of \<open>files\<close>.
\<close>

definition main :: "os_env \<Rightarrow> world \<Rightarrow> world" where
  "main env w =
     (if files w standards_path = None then emit (Print (NotFound standards_path)) w
      else
        let ris_files = glob_files env (files w) ris_folder ''*.ris'' in
        if ris_files = [] then emit (Print (NoRisFiles ris_folder)) w
        else
          let w1 = convert_all env standards_path csv_output_folder ris_files w;
              w2 = merge_csv_files env csv_output_folder merged_output_csv standards_path w1
          in if files w2 merged_output_csv \<noteq> None then
               convert_csv_to_ris merged_output_csv standards_path merged_output_ris w2
             else emit (Print (MergedNotFound merged_output_csv)) w2)"

section \<open>Notions of the specification\<close>

subsection \<open>Record parser\<close>

text \<open>A line that begins with the end marker, once stripped.\<close>

definition is_end_line :: "string \<Rightarrow> bool" where
  "is_end_line raw = (strip raw \<noteq> [] \<and> startswith (strip raw) ''ER'')"

text \<open>
  The pair (tag, trimmed value) of a line that is not blank, is not an end marker and
  matches the tag pattern.
\<close>

definition line_entry :: "string \<Rightarrow> (string \<times> string) option" where
  "line_entry raw =
     (let line = strip raw in
      if line = [] \<or> startswith line ''ER'' then None
      else map_option (\<lambda>(tag, g). (tag, strip g)) (re_match_tag_line line))"

text \<open>
  The values that the specification stores for \<open>tag\<close>, in line order: those of the
  entries with that tag whose value is not empty or whose tag is \<open>TY\<close>.
\<close>

definition spec_stored :: "string \<Rightarrow> string list \<Rightarrow> string list" where
  "spec_stored tag lines =
     map snd (filter (\<lambda>(t, v). t = tag \<and> (v \<noteq> [] \<or> t = ''TY''))
                (List.map_filter line_entry lines))"

text \<open>
  What the specification keeps for a tag that occurred with these values: nothing, a
  single string, or from the second occurrence on the sequence of all of them.
\<close>

fun spec_value :: "string list \<Rightarrow> rvalue option" where
  "spec_value [] = None"
| "spec_value [v] = Some (Scalar v)"
| "spec_value vs = Some (Multi vs)"

subsection \<open>Tabular projector\<close>

text \<open>
  The cell of the specification for a record and a column: the empty string when the tag
  is absent, the values joined with \<open>;\<close> for a sequence, the string itself for a scalar.
\<close>

definition spec_cell :: "reference \<Rightarrow> string \<Rightarrow> string" where
  "spec_cell ref tag =
     (case map_of ref tag of
        None \<Rightarrow> []
      | Some (Multi vs) \<Rightarrow> join '';'' vs
      | Some (Scalar s) \<Rightarrow> s)"

subsection \<open>Tabular merger\<close>



subsection \<open>Record serializer\<close>

text \<open>The text of a cell of a \<open>DictReader\<close> row; a missing cell reads as empty.\<close>

definition cell_text :: "csvrow \<Rightarrow> string \<Rightarrow> string" where
  "cell_text row field = (case map_of row field of Some (Some c) \<Rightarrow> c | _ \<Rightarrow> [])"

text \<open>
  The tag lines of one column: for a multi-value column one line for every piece of the
  cell, split on \<open>;\<close>, that is not blank, trimmed and in split order; otherwise a single
  line with the cell verbatim.
\<close>

definition spec_field_lines :: "string list \<Rightarrow> string \<Rightarrow> string \<Rightarrow> string" where
  "spec_field_lines mvf field c =
     (if field \<in> set mvf then
        concat (map (\<lambda>p. field @ ''  - '' @ strip p @ [LF])
                  (filter (\<lambda>p. strip p \<noteq> []) (split_on (CHR '';'') c)))
      else field @ ''  - '' @ c @ [LF])"

text \<open>
  The block of one row: the \<open>TY\<close> line, the lines of every other column in the order of
  \<open>flds\<close>, without \<open>TY\<close>, \<open>ER\<close> and the empty cells, the end marker with a blank value, and
  a blank line.
\<close>

definition spec_block :: "string list \<Rightarrow> string list \<Rightarrow> (string \<Rightarrow> string) \<Rightarrow> string" where
  "spec_block flds mvf cell =
     ''TY  - '' @ cell ''TY'' @ [LF] @
     concat (map (\<lambda>f. spec_field_lines mvf f (cell f))
               (filter (\<lambda>f. f \<noteq> ''TY'' \<and> f \<noteq> ''ER'' \<and> cell f \<noteq> []) flds)) @
     ''ER  - '' @ [LF] @ [LF]"

text \<open>The text of a table: the blocks of the rows whose \<open>TY\<close> cell is not empty.\<close>

definition spec_ris_text :: "string list \<Rightarrow> string list \<Rightarrow> csvrow list \<Rightarrow> string" where
  "spec_ris_text flds mvf rows =
     concat (map (\<lambda>row. spec_block flds mvf (cell_text row))
               (filter (\<lambda>row. cell_text row ''TY'' \<noteq> []) rows))"

subsection \<open>Example inputs\<close>

text \<open>
  The schema and the record of the end-to-end example of the specification: the tags
  \<open>TY\<close>, \<open>AU\<close>, \<open>TI\<close> and \<open>ER\<close>, with \<open>AU\<close> marked as multi-valued by its notes.
\<close>

definition example_schema_rows :: "string list list" where
  "example_schema_rows =
     [[''TY'', ''Type of reference''],
      [''AU'', ''Author'', ''1'', ''Each author on its own line''],
      [''TI'', ''Title''],
      [''ER'', ''End of reference'']]"

definition example_standards :: standards where
  "example_standards =
     [(''TY'', \<lparr>description = ''Type of reference'', notes_text = []\<rparr>),
      (''AU'', \<lparr>description = ''Author'', notes_text = ''Each author on its own line''\<rparr>),
      (''TI'', \<lparr>description = ''Title'', notes_text = []\<rparr>),
      (''ER'', \<lparr>description = ''End of reference'', notes_text = []\<rparr>)]"

definition example_ris_text :: string where
  "example_ris_text =
     ''TY  - JOUR'' @ [LF] @ ''AU  - Smith, J'' @ [LF] @ ''AU  - Doe, A'' @ [LF] @
     ''TI  - A Study'' @ [LF] @ ''ER  - '' @ [LF]"

definition example_world :: world where
  "example_world =
     \<lparr>files = [''stds.csv'' \<mapsto> Table example_schema_rows,
               ''a.ris'' \<mapsto> Text example_ris_text,
               ''a.csv'' \<mapsto> Table [[''AU'', ''ER'', ''TI'', ''TY''],
                                    [''Smith, J;Doe, A'', [], ''A Study'', ''JOUR'']],
               ''b.csv'' \<mapsto> Table [[''TY'', ''TI'', ''ER'', ''AU''],
                                    [''BOOK'', ''A Book'', [], ''Roe, R'']],
               ''c.csv'' \<mapsto> Table [[''TY'', ''TI''], [''JOUR'', ''Dropped'']],
               ''m.csv'' \<mapsto> Table [[''AU'', ''ER'', ''TI'', ''TY''],
                                    [''Old, O'', [], ''Earlier merge'', ''JOUR'']]],
      events = []\<rparr>"




subsection \<open>Schema loader and orchestration\<close>

text \<open>
  The schema source supplies the tag \<open>TY\<close>: one of its rows has at least two columns and
  \<open>TY\<close> as its first cell, once stripped.
\<close>

definition has_TY_row :: "string list list \<Rightarrow> bool" where
  "has_TY_row rows =
     list_ex (\<lambda>row. \<not> (row = [] \<or> length row < 2) \<and> strip (row ! 0) = ''TY'') rows"

text \<open>
  An event that touches no file but the schema source: a message, or the opening of the
  schema source for reading.
\<close>

fun only_schema_access :: "string \<Rightarrow> event \<Rightarrow> bool" where
  "only_schema_access sf (Print d) = True"
| "only_schema_access sf (OpenRead p) = (p = sf)"
| "only_schema_access sf (OpenWrite p) = False"

text \<open>The number of reports of a schema that failed to load for want of \<open>TY\<close>.\<close>

definition load_failures :: "string \<Rightarrow> event list \<Rightarrow> nat" where
  "load_failures sf evs = length (filter (\<lambda>e. e = Print (ErrorLoading sf ValueError)) evs)"

text \<open>
  The world \<open>w'\<close> comes from \<open>w\<close> by \<open>n\<close> failed loads of the schema and nothing else: the
  files are the same, and the events of \<open>w'\<close> are those of \<open>w\<close> followed by events that
  touch no file but the schema source, \<open>n\<close> of which report the missing \<open>TY\<close>.
\<close>

definition schema_failure_step :: "string \<Rightarrow> nat \<Rightarrow> world \<Rightarrow> world \<Rightarrow> bool" where
  "schema_failure_step sf n w w' =
     (files w' = files w \<and>
      take (length (events w)) (events w') = events w \<and>
      list_all (only_schema_access sf) (drop (length (events w)) (events w')) \<and>
      load_failures sf (drop (length (events w)) (events w')) = n)"

text \<open>
  A run on a schema without \<open>TY\<close>: the schema source has the single tag \<open>AU\<close>, the RIS
  folder holds the two files \<open>a.ris\<close> and \<open>b.ris\<close>, and the CSV folder is empty.
\<close>

definition in_folder :: "string \<Rightarrow> string \<Rightarrow> string" where
  "in_folder folder name = folder @ [backslash] @ name"

definition no_TY_world :: world where
  "no_TY_world =
     \<lparr>files = [standards_path \<mapsto> Table [[''AU'', ''Author'']],
               in_folder ris_folder ''a.ris'' \<mapsto> Text (''TY  - JOUR'' @ [LF] @ ''ER  - '' @ [LF]),
               in_folder ris_folder ''b.ris'' \<mapsto> Text (''TY  - BOOK'' @ [LF] @ ''ER  - '' @ [LF])],
      events = []\<rparr>"

definition no_TY_env :: os_env where
  "no_TY_env =
     \<lparr>glob_files = (\<lambda>fs folder pattern.
                      if pattern = ''*.ris'' then [in_folder folder ''a.ris'', in_folder folder ''b.ris'']
                      else []),
      csv_path = (\<lambda>folder ris_file.
                    if ris_file = in_folder ris_folder ''a.ris'' then in_folder folder ''a.csv''
                    else in_folder folder ''b.csv'')\<rparr>"

subsection \<open>Round trip\<close>
















section \<open>Properties of the record parser\<close>

lemma spec_value_snoc:
  "spec_value (ys @ [v]) =
     (case spec_value ys of
        None \<Rightarrow> Some (Scalar v)
      | Some (Scalar x) \<Rightarrow> Some (Multi [x, v])
      | Some (Multi xs) \<Rightarrow> Some (Multi (xs @ [v])))"
  by (induction ys rule: spec_value.induct) auto

lemma map_of_store_value_same:
  "map_of cur tag = spec_value ys \<Longrightarrow> map_of (store_value cur tag v) tag = spec_value (ys @ [v])"
  by (simp add: store_value_def spec_value_snoc update_conv' split: option.splits rvalue.splits)

lemma map_of_store_value_other:
  "t \<noteq> tag \<Longrightarrow> map_of (store_value cur tag v) t = map_of cur t"
  by (simp add: store_value_def update_conv' split: option.splits rvalue.splits)

lemma spec_stored_Nil: "spec_stored tag [] = []"
  by (simp add: spec_stored_def)

lemma spec_stored_Cons:
  "spec_stored tag (l # ls) =
     (case line_entry l of
        None \<Rightarrow> spec_stored tag ls
      | Some (t, v) \<Rightarrow>
          if t = tag \<and> (v \<noteq> [] \<or> t = ''TY'') then v # spec_stored tag ls
          else spec_stored tag ls)"
  by (cases "line_entry l") (auto simp: spec_stored_def cong: if_cong split: if_splits)

lemma parse_line_not_end:
  "\<not> is_end_line l \<Longrightarrow>
   parse_line (refs, cur) l =
     (refs, case line_entry l of
              None \<Rightarrow> cur
            | Some (t, v) \<Rightarrow> if v \<noteq> [] \<or> t = ''TY'' then store_value cur t v else cur)"
  by (auto simp: parse_line_def line_entry_def is_end_line_def Let_def split: option.splits)

lemma parse_loop_no_end:
  "\<forall>l\<in>set ls. \<not> is_end_line l \<Longrightarrow> map_of cur tag = spec_value ys \<Longrightarrow>
   fst (parse_loop (refs, cur) ls) = refs \<and>
   map_of (snd (parse_loop (refs, cur) ls)) tag = spec_value (ys @ spec_stored tag ls)"
proof (induction ls arbitrary: cur ys)
  case Nil
  then show ?case by (simp add: spec_stored_Nil)
next
  case (Cons l ls)
  from Cons.prems have ne: "\<not> is_end_line l" and rest: "\<forall>l\<in>set ls. \<not> is_end_line l"
    by simp_all
  show ?case
  proof (cases "line_entry l")
    case None
    with ne have "parse_line (refs, cur) l = (refs, cur)"
      by (simp add: parse_line_not_end)
    with Cons.IH[OF rest Cons.prems(2)] None show ?thesis
      by (simp add: spec_stored_Cons)
  next
    case (Some e)
    obtain t v where e: "e = (t, v)" by (cases e)
    show ?thesis
    proof (cases "v \<noteq> [] \<or> t = ''TY''")
      case False
      with ne Some e have "parse_line (refs, cur) l = (refs, cur)"
        by (simp add: parse_line_not_end)
      with Cons.IH[OF rest Cons.prems(2)] Some e False show ?thesis
        by (simp add: spec_stored_Cons)
    next
      case stored: True
      with ne Some e have step: "parse_line (refs, cur) l = (refs, store_value cur t v)"
        by (simp add: parse_line_not_end)
      show ?thesis
      proof (cases "t = tag")
        case True
        with Cons.prems(2) have "map_of (store_value cur t v) tag = spec_value (ys @ [v])"
          by (simp add: map_of_store_value_same)
        from Cons.IH[OF rest this] step Some e True stored show ?thesis
          by (simp add: spec_stored_Cons)
      next
        case False
        with Cons.prems(2) have "map_of (store_value cur t v) tag = spec_value ys"
          by (simp add: map_of_store_value_other)
        from Cons.IH[OF rest this] step Some e False show ?thesis
          by (simp add: spec_stored_Cons)
      qed
    qed
  qed
qed

lemma parse_line_has_TY:
  "\<forall>r\<in>set (fst st). map_of r ''TY'' \<noteq> None \<Longrightarrow>
   \<forall>r\<in>set (fst (parse_line st l)). map_of r ''TY'' \<noteq> None"
  by (cases st) (auto simp: parse_line_def emittable_def Let_def split: option.splits)

lemma parse_loop_has_TY:
  "\<forall>r\<in>set (fst st). map_of r ''TY'' \<noteq> None \<Longrightarrow>
   \<forall>r\<in>set (fst (parse_loop st ls)). map_of r ''TY'' \<noteq> None"
proof (induction ls arbitrary: st)
  case Nil
  then show ?case by simp
next
  case (Cons l ls)
  have "\<forall>r\<in>set (fst (parse_line st l)). map_of r ''TY'' \<noteq> None"
    by (rule parse_line_has_TY[OF Cons.prems])
  from Cons.IH[OF this] show ?case by simp
qed

text \<open>
  Claim C3, as the code has it. Every record that the parser emits, at an end marker or
  at the end of the input, has an entry for the tag \<open>TY\<close>. The code tests the presence of
  the key only: the value of the entry may be the empty string.
\<close>

theorem C3_emitted_records_have_TY:
  "\<forall>r\<in>set (parse_ris_lines ls). map_of r ''TY'' \<noteq> None"
proof -
  have "\<forall>r\<in>set (fst (parse_loop ([], []) ls)). map_of r ''TY'' \<noteq> None"
    by (rule parse_loop_has_TY) simp
  then show ?thesis
    by (cases "parse_loop ([], []) ls") (auto simp: parse_ris_lines_def emittable_def)
qed

theorem C3_emitted_records_have_TY_witness:
  "[(''TY'', Scalar ''JOUR'')] \<in> set (parse_ris_lines [''TY  - JOUR'', ''ER  - '']) \<and>
   map_of [(''TY'', Scalar ''JOUR'')] ''TY'' \<noteq> None"
proof -
  have m: "[(''TY'', Scalar ''JOUR'')] \<in> set (parse_ris_lines [''TY  - JOUR'', ''ER  - ''])"
    by code_simp
  from C3_emitted_records_have_TY[of "[''TY  - JOUR'', ''ER  - '']"] m show ?thesis
    by blast
qed

text \<open>
  Claim C3 as stated fails: a \<open>TY\<close> line with no value is stored with the empty string,
  and the record is emitted at the end marker as well as at the end of the input.
\<close>

theorem C3_empty_TY_counterexample:
  "parse_ris_lines [''TY  - '', ''ER  - ''] = [[(''TY'', Scalar [])]] \<and>
   parse_ris_lines [''TY  - ''] = [[(''TY'', Scalar [])]]"
  by code_simp

text \<open>
  Claim C4, evaluated on the code. A record without \<open>TY\<close> is not emitted at its end
  marker, but the in-progress record is not reset either (the reset of line 52 stands
  under the test of line 50): the entry \<open>AU\<close> of the first record is carried into the
  second one.
\<close>

theorem C4_no_reset_without_TY:
  "parse_ris_lines [''AU  - Orphan'', ''ER  - '', ''TY  - JOUR'', ''TI  - T'', ''ER  - ''] =
     [[(''AU'', Scalar ''Orphan''), (''TY'', Scalar ''JOUR''), (''TI'', Scalar ''T'')]]"
  by code_simp

text \<open>
  Claim C5. Within one in-progress record (a run of lines with no end marker, started
  from the empty record), the record maps every tag to the values of the matching lines
  with that tag that have a non-empty value or the tag \<open>TY\<close>, in line order: absent when
  there is none, the string itself when there is one, and the sequence of all of them
  from the second occurrence on. The emitted records are untouched.
\<close>

theorem C5_entries_stored_in_line_order:
  "\<forall>l\<in>set ls. \<not> is_end_line l \<Longrightarrow>
   fst (parse_loop (refs, []) ls) = refs \<and>
   map_of (snd (parse_loop (refs, []) ls)) tag = spec_value (spec_stored tag ls)"
  using parse_loop_no_end[of ls "[]" tag "[]" refs] by simp

theorem C5_entries_stored_in_line_order_witness:
  "map_of (snd (parse_loop ([], []) [''TY  - JOUR'', ''AU  - A'', ''N1  - '', ''AU  - B'', ''AU  - C'']))
     ''AU'' = Some (Multi [''A'', ''B'', ''C'']) \<and>
   spec_stored ''N1'' [''TY  - JOUR'', ''AU  - A'', ''N1  - '', ''AU  - B'', ''AU  - C''] = []"
proof -
  have ne: "\<forall>l\<in>set [''TY  - JOUR'', ''AU  - A'', ''N1  - '', ''AU  - B'', ''AU  - C'']. \<not> is_end_line l"
    by code_simp
  have sv: "spec_value (spec_stored ''AU'' [''TY  - JOUR'', ''AU  - A'', ''N1  - '', ''AU  - B'', ''AU  - C''])
              = Some (Multi [''A'', ''B'', ''C''])"
    by code_simp
  have n1: "spec_stored ''N1'' [''TY  - JOUR'', ''AU  - A'', ''N1  - '', ''AU  - B'', ''AU  - C''] = []"
    by code_simp
  from C5_entries_stored_in_line_order[OF ne, of "[]" "''AU''"] sv n1 show ?thesis
    by simp
qed

section \<open>The file system is touched only by writes\<close>

lemma files_emit [simp]: "files (emit e w) = files w"
  by (simp add: emit_def)

lemma files_prints [simp]: "files (prints ds w) = files w"
  by (simp add: prints_def)

lemma files_write_file [simp]: "files (write_file p c w) = (files w)(p \<mapsto> c)"
  by (simp add: write_file_def)

lemma files_load_ris_standards [simp]: "files (snd (load_ris_standards sf w)) = files w"
  by (simp add: load_ris_standards_def Let_def split: option.splits content.splits prod.splits)

lemma files_parse_ris_file [simp]: "files (snd (parse_ris_file rf w)) = files w"
  by (simp add: parse_ris_file_def split: option.splits content.splits)

lemma load_ris_standards_TY:
  "fst (load_ris_standards sf w) = Inr standards \<Longrightarrow> map_of standards ''TY'' \<noteq> None"
  by (auto simp: load_ris_standards_def Let_def
           split: option.splits content.splits prod.splits list.splits if_splits)

lemma parse_ris_file_Text:
  "files w rf = Some (Text body) \<Longrightarrow> fst (parse_ris_file rf w) = Inr (parse_ris_text body)"
  by (simp add: parse_ris_file_def)

lemma example_load:
  "fst (load_ris_standards ''stds.csv'' example_world) = Inr example_standards"
  by code_simp


lemma example_multi_value_fields: "multi_value_fields example_standards = [''AU'']"
  by code_simp

section \<open>Properties of the tabular projector\<close>

lemma build_row_eq: "build_row ref flds row = row @ map (spec_cell ref) flds"
  by (induction flds arbitrary: row) (simp_all add: spec_cell_def)

lemma write_rows_eq:
  "write_rows flds references table = table @ map (\<lambda>ref. map (spec_cell ref) flds) references"
  by (induction references arbitrary: table) (simp_all add: build_row_eq)

lemma files_convert_ris_to_csv:
  assumes "fst (load_ris_standards sf w) = Inr standards" and "files w rf = Some (Text body)"
  shows "files (convert_ris_to_csv rf sf out w) =
           (files w)(out \<mapsto> Table (write_rows (sorted_keys standards) (parse_ris_text body)
                                     [sorted_keys standards]))"
proof -
  obtain w1 where l: "load_ris_standards sf w = (Inr standards, w1)"
    using assms(1) by (cases "load_ris_standards sf w") simp
  then have f1: "files w1 = files w"
    using files_load_ris_standards[of sf w] by simp
  obtain w2 where p: "parse_ris_file rf w1 = (Inr (parse_ris_text body), w2)"
    using parse_ris_file_Text[of w1 rf body] assms(2) f1 by (cases "parse_ris_file rf w1") simp
  then have f2: "files w2 = files w"
    using files_parse_ris_file[of rf w1] f1 by simp
  show ?thesis
    by (simp add: convert_ris_to_csv_def l p Let_def f2 write_rows_eq
             split: prod.splits option.splits)
qed

text \<open>
  Claim C6. When the schema loads and the RIS file can be read, the table written by
  \<open>convert_ris_to_csv\<close> has the sorted list of the schema's tags as its header, whatever
  the records are, and one row for each record, in the order of the records; the cell
  of a record under a column is the empty string when the tag is absent, the values
  joined with \<open>;\<close> when the stored value is a sequence, and the string itself when it is
  a scalar. The row construction does this for every list of columns and of records.
\<close>

theorem C6_projection:
  assumes "fst (load_ris_standards sf w) = Inr standards" and "files w rf = Some (Text body)"
  shows "files (convert_ris_to_csv rf sf out w) out =
           Some (Table (sort (map fst standards) #
                        map (\<lambda>ref. map (spec_cell ref) (sort (map fst standards)))
                          (parse_ris_text body))) \<and>
         write_rows flds references [flds] =
           flds # map (\<lambda>ref. map (spec_cell ref) flds) references"
  by (simp add: files_convert_ris_to_csv[OF assms] write_rows_eq sorted_keys_def)

theorem C6_projection_witness:
  "files (convert_ris_to_csv ''a.ris'' ''stds.csv'' ''out.csv'' example_world) ''out.csv'' =
     Some (Table [[''AU'', ''ER'', ''TI'', ''TY''],
                  [''Smith, J;Doe, A'', [], ''A Study'', ''JOUR'']])"
proof -
  have f: "files example_world ''a.ris'' = Some (Text example_ris_text)"
    by (simp add: example_world_def)
  have v: "Some (Table (sort (map fst example_standards) #
                        map (\<lambda>ref. map (spec_cell ref) (sort (map fst example_standards)))
                          (parse_ris_text example_ris_text))) =
           Some (Table [[''AU'', ''ER'', ''TI'', ''TY''],
                        [''Smith, J;Doe, A'', [], ''A Study'', ''JOUR'']])"
    by code_simp
  from C6_projection[OF example_load f, of "''out.csv''"] v show ?thesis
    by simp
qed

section \<open>Properties of the tabular merger\<close>












section \<open>Properties of the record serializer\<close>

lemma write_values_eq:
  "write_values field vs out =
     out @ concat (map (\<lambda>p. field @ ''  - '' @ strip p @ [LF]) (filter (\<lambda>p. strip p \<noteq> []) vs))"
  by (induction vs arbitrary: out) simp_all

lemma write_fields_eq:
  "\<forall>f\<in>set flds. map_of row f \<noteq> None \<Longrightarrow>
   write_fields mvf row flds out =
     (None, out @ concat (map (\<lambda>f. spec_field_lines mvf f (cell_text row f))
                            (filter (\<lambda>f. f \<noteq> ''TY'' \<and> f \<noteq> ''ER'' \<and> cell_text row f \<noteq> []) flds)))"
proof (induction flds arbitrary: out)
  case Nil
  then show ?case by simp
next
  case (Cons f flds)
  then obtain c where c: "map_of row f = Some c" by auto
  from Cons.prems have rest: "\<forall>f\<in>set flds. map_of row f \<noteq> None" by simp
  show ?case
    using c Cons.IH[OF rest]
    by (cases c) (simp_all add: cell_text_def spec_field_lines_def write_values_eq)
qed

lemma write_refs_eq:
  "\<forall>row\<in>set rows. \<forall>f\<in>set (''TY'' # flds). map_of row f \<noteq> None \<Longrightarrow>
   write_refs csv_file flds mvf i rows out ds =
     (None,
      out @ concat (map (\<lambda>row. spec_block flds mvf (cell_text row))
                      (filter (\<lambda>row. cell_text row ''TY'' \<noteq> []) rows)),
      snd (snd (write_refs csv_file flds mvf i rows out ds)))"
proof (induction rows arbitrary: i out ds)
  case Nil
  then show ?case by simp
next
  case (Cons row rows)
  then obtain c where c: "map_of row ''TY'' = Some c" by auto
  from Cons.prems have rest: "\<forall>row\<in>set rows. \<forall>f\<in>set (''TY'' # flds). map_of row f \<noteq> None"
    and here: "\<forall>f\<in>set flds. map_of row f \<noteq> None" by simp_all
  show ?case
  proof (cases c)
    case None
    with c Cons.IH[OF rest, of "i + 1" out "ds @ [SkippingReference i csv_file]"] show ?thesis
      by (simp add: cell_text_def)
  next
    case (Some ty)
    show ?thesis
    proof (cases "ty = []")
      case True
      with Some c Cons.IH[OF rest, of "i + 1" out "ds @ [SkippingReference i csv_file]"]
      show ?thesis
        by (simp add: cell_text_def)
    next
      case False
      have ct: "cell_text row ''TY'' = ty" using c Some by (simp add: cell_text_def)
      have wf: "write_fields mvf row flds (out @ ''TY  - '' @ ty @ [LF]) =
                  (None, (out @ ''TY  - '' @ ty @ [LF]) @
                     concat (map (\<lambda>f. spec_field_lines mvf f (cell_text row f))
                               (filter (\<lambda>f. f \<noteq> ''TY'' \<and> f \<noteq> ''ER'' \<and> cell_text row f \<noteq> []) flds)))"
        by (rule write_fields_eq[OF here])
      have step: "write_refs csv_file flds mvf i (row # rows) out ds =
                    write_refs csv_file flds mvf (i + 1) rows
                      (out @ spec_block flds mvf (cell_text row)) ds"
        using c Some False wf by (simp add: spec_block_def ct)
      have keep: "filter (\<lambda>row. cell_text row ''TY'' \<noteq> []) (row # rows) =
                    row # filter (\<lambda>row. cell_text row ''TY'' \<noteq> []) rows"
        using False ct by simp
      show ?thesis
        unfolding step keep
        using Cons.IH[OF rest, of "i + 1" "out @ spec_block flds mvf (cell_text row)" ds]
        by simp
    qed
  qed
qed

lemma dom_dict_row: "dom (map_of (dict_row fieldnames row)) = set fieldnames"
proof -
  have "set (take (length row) fieldnames) \<union> set (drop (length row) fieldnames) = set fieldnames"
    by (metis append_take_drop_id set_append)
  then show ?thesis
    by (auto simp: dict_row_def updates_conv')
qed

lemma map_of_dict_row_key:
  "f \<in> set fieldnames \<Longrightarrow> map_of (dict_row fieldnames row) f \<noteq> None"
  using dom_dict_row[of fieldnames row] by (auto simp: dom_def)

lemma dictreader_rows_keys:
  "set flds \<subseteq> set fieldnames \<Longrightarrow> ''TY'' \<in> set fieldnames \<Longrightarrow>
   \<forall>row\<in>set (dictreader_rows fieldnames rows). \<forall>f\<in>set (''TY'' # flds). map_of row f \<noteq> None"
  by (auto simp: dictreader_rows_def dest: map_of_dict_row_key)

lemma sorted_keys_TY:
  "map_of standards ''TY'' \<noteq> None \<Longrightarrow> ''TY'' \<in> set (sorted_keys standards)"
  by (auto simp: sorted_keys_def dest: map_of_SomeD intro: rev_image_eqI)

lemma convert_csv_to_ris_accept:
  assumes l: "fst (load_ris_standards sf w) = Inr standards"
    and t: "files w csv = Some (Table (fieldnames # rows))"
    and a: "sort fieldnames = sorted_keys standards"
  shows "files (convert_csv_to_ris csv sf out w) =
           (files w)(out \<mapsto> Text (spec_ris_text (sorted_keys standards)
                                     (multi_value_fields standards) (dictreader_rows fieldnames rows)))"
proof -
  obtain w1 where l1: "load_ris_standards sf w = (Inr standards, w1)"
    using l by (cases "load_ris_standards sf w") simp
  then have f1: "files w1 = files w"
    using files_load_ris_standards[of sf w] by simp
  have ty: "''TY'' \<in> set (sorted_keys standards)"
    using load_ris_standards_TY[OF l] by (rule sorted_keys_TY)
  have sub: "set (sorted_keys standards) \<subseteq> set fieldnames"
    using a by (metis set_sort subset_refl)
  then have tyf: "''TY'' \<in> set fieldnames" using ty by auto
  have keys: "\<forall>row\<in>set (dictreader_rows fieldnames rows).
                \<forall>f\<in>set (''TY'' # sorted_keys standards). map_of row f \<noteq> None"
    by (rule dictreader_rows_keys[OF sub tyf])
  obtain e body ds where wr0:
    "write_refs csv (sorted_keys standards) (multi_value_fields standards) 1
       (dictreader_rows fieldnames rows) [] [] = (e, body, ds)"
    by (cases "write_refs csv (sorted_keys standards) (multi_value_fields standards) 1
                 (dictreader_rows fieldnames rows) [] []") auto
  have wr: "write_refs csv (sorted_keys standards) (multi_value_fields standards) 1
              (dictreader_rows fieldnames rows) [] [] =
            (None, spec_ris_text (sorted_keys standards) (multi_value_fields standards)
                     (dictreader_rows fieldnames rows), ds)"
    using write_refs_eq[OF keys, of csv "multi_value_fields standards" 1 "[]" "[]"] wr0
    by (simp add: spec_ris_text_def)
  show ?thesis
    unfolding convert_csv_to_ris_def l1
    using t a f1 wr by (simp add: Let_def)
qed

lemma convert_csv_to_ris_reject:
  assumes l: "fst (load_ris_standards sf w) = Inr standards"
    and t: "files w csv = Some (Table (fieldnames # rows))"
    and a: "sort fieldnames \<noteq> sorted_keys standards"
  shows "convert_csv_to_ris csv sf out w =
           emit (Print (HeaderMismatchError csv))
             (emit (OpenRead csv) (snd (load_ris_standards sf w)))"
proof -
  obtain w1 where l1: "load_ris_standards sf w = (Inr standards, w1)"
    using l by (cases "load_ris_standards sf w") simp
  then have f1: "files w1 = files w"
    using files_load_ris_standards[of sf w] by simp
  show ?thesis
    unfolding convert_csv_to_ris_def l1
    using t a f1 by (simp add: Let_def)
qed

lemma sort_eq_iff_mset: "sort xs = sort ys \<longleftrightarrow> mset xs = mset ys"
  by (metis mset_sort properties_for_sort sorted_sort)

text \<open>
  Claim C8, as the code has it. The serializer sorts the header of its input before
  comparing it with the canonical header. The input is accepted, and the RIS file is
  written, exactly when the header has the canonical columns with the same
  multiplicities, in any order; with any other header the only effects are the opening
  of the input and the error message, and no file is written.
\<close>

theorem C8_header_compared_after_sorting:
  assumes "fst (load_ris_standards sf w) = Inr standards"
    and "files w csv = Some (Table (fieldnames # rows))"
  shows "(mset fieldnames = mset (map fst standards) \<longrightarrow>
            files (convert_csv_to_ris csv sf out w) out =
              Some (Text (spec_ris_text (sorted_keys standards) (multi_value_fields standards)
                            (dictreader_rows fieldnames rows)))) \<and>
         (mset fieldnames \<noteq> mset (map fst standards) \<longrightarrow>
            convert_csv_to_ris csv sf out w =
              emit (Print (HeaderMismatchError csv))
                (emit (OpenRead csv) (snd (load_ris_standards sf w))) \<and>
            files (convert_csv_to_ris csv sf out w) = files w)"
proof -
  have iff: "sort fieldnames = sorted_keys standards \<longleftrightarrow> mset fieldnames = mset (map fst standards)"
    by (simp add: sorted_keys_def sort_eq_iff_mset)
  show ?thesis
  proof (cases "sort fieldnames = sorted_keys standards")
    case True
    with convert_csv_to_ris_accept[OF assms True, of out] iff show ?thesis
      by simp
  next
    case False
    with convert_csv_to_ris_reject[OF assms False, of out] iff show ?thesis
      by simp
  qed
qed

theorem C8_header_compared_after_sorting_witness:
  "files (convert_csv_to_ris ''a.csv'' ''stds.csv'' ''a.out'' example_world) ''a.out'' =
     Some (Text (''TY  - JOUR'' @ [LF] @ ''AU  - Smith, J'' @ [LF] @ ''AU  - Doe, A'' @ [LF] @
                 ''TI  - A Study'' @ [LF] @ ''ER  - '' @ [LF, LF])) \<and>
   files (convert_csv_to_ris ''c.csv'' ''stds.csv'' ''c.out'' example_world) ''c.out'' = None"
proof -
  have ta: "files example_world ''a.csv'' =
              Some (Table ([''AU'', ''ER'', ''TI'', ''TY''] #
                           [[''Smith, J;Doe, A'', [], ''A Study'', ''JOUR'']]))"
    by (simp add: example_world_def)
  have tc: "files example_world ''c.csv'' = Some (Table ([''TY'', ''TI''] # [[''JOUR'', ''Dropped'']]))"
    by (simp add: example_world_def)
  have ma: "mset [''AU'', ''ER'', ''TI'', ''TY''] = mset (map fst example_standards)"
    by (simp add: example_standards_def)
  have mc: "mset [''TY'', ''TI''] \<noteq> mset (map fst example_standards)"
    by (simp add: example_standards_def)
  have va: "spec_ris_text (sorted_keys example_standards) (multi_value_fields example_standards)
              (dictreader_rows [''AU'', ''ER'', ''TI'', ''TY'']
                 [[''Smith, J;Doe, A'', [], ''A Study'', ''JOUR'']]) =
            ''TY  - JOUR'' @ [LF] @ ''AU  - Smith, J'' @ [LF] @ ''AU  - Doe, A'' @ [LF] @
            ''TI  - A Study'' @ [LF] @ ''ER  - '' @ [LF, LF]"
    by code_simp
  have nc: "files example_world ''c.out'' = None"
    by (simp add: example_world_def)
  from C8_header_compared_after_sorting[OF example_load ta, of "''a.out''"]
       C8_header_compared_after_sorting[OF example_load tc, of "''c.out''"]
       ma mc va nc
  show ?thesis by simp
qed

text \<open>
  Claim C8 as stated fails: the header \<open>TY, TI, ER, AU\<close> of \<open>b.csv\<close> is a permutation of the
  canonical header and not the canonical header itself, and the serializer accepts it
  and writes the RIS text of its row.
\<close>

theorem C8_permuted_header_accepted_counterexample:
  "files example_world ''b.csv'' =
     Some (Table [[''TY'', ''TI'', ''ER'', ''AU''], [''BOOK'', ''A Book'', [], ''Roe, R'']]) \<and>
   sorted_keys example_standards = [''AU'', ''ER'', ''TI'', ''TY''] \<and>
   files (convert_csv_to_ris ''b.csv'' ''stds.csv'' ''b.out'' example_world) ''b.out'' =
     Some (Text (''TY  - BOOK'' @ [LF] @ ''AU  - Roe, R'' @ [LF] @ ''TI  - A Book'' @ [LF] @
                 ''ER  - '' @ [LF, LF]))"
  by code_simp

text \<open>
  Claim C9. When the input is accepted, the RIS text is the concatenation, in row
  order, of one block for every row whose \<open>TY\<close> cell is not empty. A block is the \<open>TY\<close>
  line, then for every other canonical column in sorted order, without \<open>TY\<close>, \<open>ER\<close> and
  the columns whose cell is empty, the lines of the column, then the end marker with a
  blank value and a blank line. The lines of a multi-value column are one line for each
  piece of the cell, split on \<open>;\<close>, that is not blank, trimmed and in split order; the
  line of any other column holds the cell verbatim.
\<close>

theorem C9_block_structure:
  assumes "fst (load_ris_standards sf w) = Inr standards"
    and "files w csv = Some (Table (fieldnames # rows))"
    and "sort fieldnames = sorted_keys standards"
  shows "sorted (sorted_keys standards) \<and>
         files (convert_csv_to_ris csv sf out w) out =
           Some (Text (concat
             (map (\<lambda>row. spec_block (sorted_keys standards) (multi_value_fields standards)
                            (cell_text row))
                (filter (\<lambda>row. cell_text row ''TY'' \<noteq> []) (dictreader_rows fieldnames rows)))))"
  using convert_csv_to_ris_accept[OF assms, of out]
  by (simp add: spec_ris_text_def sorted_keys_def)

theorem C9_block_structure_witness:
  "files (convert_csv_to_ris ''a.csv'' ''stds.csv'' ''a.out'' example_world) ''a.out'' =
     Some (Text (''TY  - JOUR'' @ [LF] @ ''AU  - Smith, J'' @ [LF] @ ''AU  - Doe, A'' @ [LF] @
                 ''TI  - A Study'' @ [LF] @ ''ER  - '' @ [LF] @ [LF]))"
proof -
  have ta: "files example_world ''a.csv'' =
              Some (Table ([''AU'', ''ER'', ''TI'', ''TY''] #
                           [[''Smith, J;Doe, A'', [], ''A Study'', ''JOUR'']]))"
    by (simp add: example_world_def)
  have s: "sort [''AU'', ''ER'', ''TI'', ''TY''] = sorted_keys example_standards"
    by code_simp
  have v: "concat
             (map (\<lambda>row. spec_block (sorted_keys example_standards)
                            (multi_value_fields example_standards) (cell_text row))
                (filter (\<lambda>row. cell_text row ''TY'' \<noteq> [])
                   (dictreader_rows [''AU'', ''ER'', ''TI'', ''TY'']
                      [[''Smith, J;Doe, A'', [], ''A Study'', ''JOUR'']]))) =
           ''TY  - JOUR'' @ [LF] @ ''AU  - Smith, J'' @ [LF] @ ''AU  - Doe, A'' @ [LF] @
           ''TI  - A Study'' @ [LF] @ ''ER  - '' @ [LF] @ [LF]"
    by code_simp
  from C9_block_structure[OF example_load ta s, of "''a.out''"] v show ?thesis
    by simp
qed

section \<open>Properties of the schema loader and of the orchestration\<close>

lemma load_rows_no_TY:
  "\<not> has_TY_row rows \<Longrightarrow> map_of st ''TY'' = None \<Longrightarrow>
   map_of (fst (load_rows f i rows st ds)) ''TY'' = None"
proof (induction rows arbitrary: i st ds)
  case Nil
  then show ?case by simp
next
  case (Cons row rows)
  from Cons.prems(1) have rest: "\<not> has_TY_row rows"
    and here: "row = [] \<or> length row < 2 \<or> strip (row ! 0) \<noteq> ''TY''"
    by (auto simp: has_TY_row_def)
  show ?case
  proof (cases "row = [] \<or> length row < 2")
    case True
    with Cons.IH[OF rest Cons.prems(2)] show ?thesis by simp
  next
    case False
    with here have nt: "strip (row ! 0) \<noteq> ''TY''" by simp
    show ?thesis
    proof (cases "strip (row ! 0) = []")
      case True
      with False Cons.IH[OF rest Cons.prems(2)] show ?thesis by simp
    next
      case ne: False
      have "map_of (AList.update (strip (row ! 0))
              \<lparr>description = (if length row > 1 then row ! 1 else []),
               notes_text = (if length row > 3 then row ! 3 else [])\<rparr> st) ''TY'' = None"
        using nt Cons.prems(2) by (simp add: update_conv')
      from Cons.IH[OF rest this] False ne show ?thesis
        by (simp add: Let_def)
    qed
  qed
qed

lemma load_rows_diags:
  "\<forall>d\<in>set ds. d \<noteq> ErrorLoading sf e \<Longrightarrow>
   \<forall>d\<in>set (snd (load_rows f i rows st ds)). d \<noteq> ErrorLoading sf e"
proof (induction rows arbitrary: i st ds)
  case Nil
  then show ?case by simp
next
  case (Cons row rows)
  have a: "\<forall>d\<in>set (ds @ [SkipInvalidRow i f]). d \<noteq> ErrorLoading sf e"
    using Cons.prems by simp
  have b: "\<forall>d\<in>set (ds @ [EmptyTag i f]). d \<noteq> ErrorLoading sf e"
    using Cons.prems by simp
  from Cons.IH[OF a] Cons.IH[OF b] Cons.IH[OF Cons.prems] show ?case
    by (simp add: Let_def)
qed

lemma schema_failure_stepI:
  "files w' = files w \<Longrightarrow> events w' = events w @ new \<Longrightarrow>
   list_all (only_schema_access sf) new \<Longrightarrow> load_failures sf new = n \<Longrightarrow>
   schema_failure_step sf n w w'"
  by (simp add: schema_failure_step_def)

lemma schema_failure_stepE:
  assumes "schema_failure_step sf n w w'"
  shows "files w' = files w \<and>
         (\<exists>new. events w' = events w @ new \<and> list_all (only_schema_access sf) new \<and>
                load_failures sf new = n)"
proof -
  have "events w' = take (length (events w)) (events w') @ drop (length (events w)) (events w')"
    by simp
  with assms have "events w' = events w @ drop (length (events w)) (events w')"
    by (simp add: schema_failure_step_def)
  with assms show ?thesis
    unfolding schema_failure_step_def by blast
qed

lemma load_failures_append:
  "load_failures sf (xs @ ys) = load_failures sf xs + load_failures sf ys"
  by (simp add: load_failures_def)

lemma schema_failure_step_refl: "schema_failure_step sf 0 w w"
  by (simp add: schema_failure_step_def load_failures_def)

lemma schema_failure_step_trans:
  assumes "schema_failure_step sf n w w'" and "schema_failure_step sf m w' w''"
  shows "schema_failure_step sf (n + m) w w''"
proof -
  from schema_failure_stepE[OF assms(1)] obtain new1 where
    f1: "files w' = files w" and e1: "events w' = events w @ new1"
    and a1: "list_all (only_schema_access sf) new1" and c1: "load_failures sf new1 = n"
    by blast
  from schema_failure_stepE[OF assms(2)] obtain new2 where
    f2: "files w'' = files w'" and e2: "events w'' = events w' @ new2"
    and a2: "list_all (only_schema_access sf) new2" and c2: "load_failures sf new2 = m"
    by blast
  show ?thesis
  proof (rule schema_failure_stepI)
    show "files w'' = files w" using f1 f2 by simp
    show "events w'' = events w @ (new1 @ new2)" using e1 e2 by simp
    show "list_all (only_schema_access sf) (new1 @ new2)" using a1 a2 by simp
    show "load_failures sf (new1 @ new2) = n + m" using c1 c2 by (simp add: load_failures_append)
  qed
qed

lemma schema_failure_step_print:
  assumes "schema_failure_step sf n w w'" and "d \<noteq> ErrorLoading sf ValueError"
  shows "schema_failure_step sf n w (emit (Print d) w')"
proof -
  have "schema_failure_step sf 0 w' (emit (Print d) w')"
  proof (rule schema_failure_stepI)
    show "files (emit (Print d) w') = files w'" by simp
    show "events (emit (Print d) w') = events w' @ [Print d]" by (simp add: emit_def)
    show "list_all (only_schema_access sf) [Print d]" by simp
    show "load_failures sf [Print d] = 0" using assms(2) by (simp add: load_failures_def)
  qed
  from schema_failure_step_trans[OF assms(1) this] show ?thesis by simp
qed

lemma load_without_TY:
  assumes "files w sf = Some (Table rows)" and "\<not> has_TY_row rows"
  shows "fst (load_ris_standards sf w) = Inl ValueError \<and>
         schema_failure_step sf 1 w (snd (load_ris_standards sf w))"
proof -
  obtain st ds where lr: "load_rows sf 1 rows [] [] = (st, ds)"
    by (cases "load_rows sf 1 rows [] []") auto
  have none: "map_of st ''TY'' = None"
    using load_rows_no_TY[OF assms(2), of "[]" sf 1 "[]"] lr by simp
  have nd: "\<forall>d\<in>set ds. d \<noteq> ErrorLoading sf ValueError"
    using load_rows_diags[of "[]" sf ValueError sf 1 rows "[]"] lr by simp
  have res: "load_ris_standards sf w =
               (Inl ValueError,
                emit (Print (ErrorLoading sf ValueError))
                  (emit (Print (TYNotFound (sorted_keys st))) (prints ds (emit (OpenRead sf) w))))"
    using assms(1) lr none by (simp add: load_ris_standards_def Let_def)
  have cnt: "load_failures sf (map Print ds) = 0"
    using nd by (induction ds) (auto simp: load_failures_def)
  have "schema_failure_step sf 1 w
          (emit (Print (ErrorLoading sf ValueError))
             (emit (Print (TYNotFound (sorted_keys st))) (prints ds (emit (OpenRead sf) w))))"
  proof (rule schema_failure_stepI)
    show "files (emit (Print (ErrorLoading sf ValueError))
             (emit (Print (TYNotFound (sorted_keys st))) (prints ds (emit (OpenRead sf) w)))) = files w"
      by simp
    show "events (emit (Print (ErrorLoading sf ValueError))
             (emit (Print (TYNotFound (sorted_keys st))) (prints ds (emit (OpenRead sf) w)))) =
          events w @ ([OpenRead sf] @ map Print ds @
                      [Print (TYNotFound (sorted_keys st)), Print (ErrorLoading sf ValueError)])"
      by (simp add: emit_def prints_def)
    show "list_all (only_schema_access sf) ([OpenRead sf] @ map Print ds @
                      [Print (TYNotFound (sorted_keys st)), Print (ErrorLoading sf ValueError)])"
      by (simp add: list_all_iff)
    show "load_failures sf ([OpenRead sf] @ map Print ds @
                      [Print (TYNotFound (sorted_keys st)), Print (ErrorLoading sf ValueError)]) = 1"
      using cnt by (simp add: load_failures_append) (simp add: load_failures_def)
  qed
  with res show ?thesis by simp
qed

lemma convert_ris_to_csv_without_TY:
  assumes "files w sf = Some (Table rows)" and "\<not> has_TY_row rows"
  shows "schema_failure_step sf 1 w (convert_ris_to_csv rf sf out w)"
proof -
  obtain w1 where l: "load_ris_standards sf w = (Inl ValueError, w1)"
    using load_without_TY[OF assms] by (cases "load_ris_standards sf w") simp
  with load_without_TY[OF assms] have s: "schema_failure_step sf 1 w w1" by simp
  have "convert_ris_to_csv rf sf out w = emit (Print (ErrorConverting rf out ValueError)) w1"
    by (simp add: convert_ris_to_csv_def l)
  with schema_failure_step_print[OF s, of "ErrorConverting rf out ValueError"] show ?thesis
    by simp
qed

lemma merge_csv_files_without_TY:
  assumes "files w sf = Some (Table rows)" and "\<not> has_TY_row rows"
  shows "schema_failure_step sf 1 w (merge_csv_files env folder merged sf w)"
proof -
  obtain w1 where l: "load_ris_standards sf w = (Inl ValueError, w1)"
    using load_without_TY[OF assms] by (cases "load_ris_standards sf w") simp
  with load_without_TY[OF assms] have s: "schema_failure_step sf 1 w w1" by simp
  have "merge_csv_files env folder merged sf w = emit (Print (ErrorMerging merged ValueError)) w1"
    by (simp add: merge_csv_files_def l)
  with schema_failure_step_print[OF s, of "ErrorMerging merged ValueError"] show ?thesis
    by simp
qed

lemma convert_csv_to_ris_without_TY:
  assumes "files w sf = Some (Table rows)" and "\<not> has_TY_row rows"
  shows "schema_failure_step sf 1 w (convert_csv_to_ris csv sf out w)"
proof -
  obtain w1 where l: "load_ris_standards sf w = (Inl ValueError, w1)"
    using load_without_TY[OF assms] by (cases "load_ris_standards sf w") simp
  with load_without_TY[OF assms] have s: "schema_failure_step sf 1 w w1" by simp
  have "convert_csv_to_ris csv sf out w = emit (Print (ErrorConverting csv out ValueError)) w1"
    by (simp add: convert_csv_to_ris_def l)
  with schema_failure_step_print[OF s, of "ErrorConverting csv out ValueError"] show ?thesis
    by simp
qed

lemma convert_all_without_TY:
  assumes "\<not> has_TY_row rows"
  shows "files w sf = Some (Table rows) \<Longrightarrow>
         schema_failure_step sf (length ris_files) w (convert_all env sf folder ris_files w)"
proof (induction ris_files arbitrary: w)
  case Nil
  then show ?case by (simp add: schema_failure_step_refl)
next
  case (Cons rf rfs)
  let ?w1 = "convert_ris_to_csv rf sf (csv_path env folder rf) w"
  have s1: "schema_failure_step sf 1 w ?w1"
    by (rule convert_ris_to_csv_without_TY[OF Cons.prems assms])
  then have "files ?w1 sf = Some (Table rows)"
    using Cons.prems by (simp add: schema_failure_step_def)
  from schema_failure_step_trans[OF s1 Cons.IH[OF this]] show ?case
    by simp
qed

lemma main_without_TY:
  assumes t: "files w standards_path = Some (Table rows)" and n: "\<not> has_TY_row rows"
  shows "schema_failure_step standards_path
           (if glob_files env (files w) ris_folder ''*.ris'' = [] then 0
            else length (glob_files env (files w) ris_folder ''*.ris'') + 1 +
                 (if files w merged_output_csv = None then 0 else 1))
           w (main env w)"
proof (cases "glob_files env (files w) ris_folder ''*.ris'' = []")
  case True
  have "schema_failure_step standards_path 0 w (emit (Print (NoRisFiles ris_folder)) w)"
    by (rule schema_failure_step_print[OF schema_failure_step_refl]) simp
  with True t show ?thesis
    by (simp add: main_def)
next
  case False
  let ?rs = "glob_files env (files w) ris_folder ''*.ris''"
  let ?w1 = "convert_all env standards_path csv_output_folder ?rs w"
  let ?w2 = "merge_csv_files env csv_output_folder merged_output_csv standards_path ?w1"
  have s1: "schema_failure_step standards_path (length ?rs) w ?w1"
    by (rule convert_all_without_TY[OF n t])
  then have f1: "files ?w1 = files w"
    by (simp add: schema_failure_step_def)
  have s2: "schema_failure_step standards_path 1 ?w1 ?w2"
    by (rule merge_csv_files_without_TY[OF _ n]) (simp add: f1 t)
  then have f2: "files ?w2 = files w"
    using f1 by (simp add: schema_failure_step_def)
  have s12: "schema_failure_step standards_path (length ?rs + 1) w ?w2"
    by (rule schema_failure_step_trans[OF s1 s2])
  show ?thesis
  proof (cases "files w merged_output_csv = None")
    case True
    have "schema_failure_step standards_path (length ?rs + 1) w
            (emit (Print (MergedNotFound merged_output_csv)) ?w2)"
      by (rule schema_failure_step_print[OF s12]) simp
    with True False t f2 show ?thesis
      by (simp add: main_def Let_def)
  next
    case ex: False
    have s3: "schema_failure_step standards_path 1 ?w2
                (convert_csv_to_ris merged_output_csv standards_path merged_output_ris ?w2)"
      by (rule convert_csv_to_ris_without_TY[OF _ n]) (simp add: f2 t)
    from schema_failure_step_trans[OF s12 s3] ex False t f2 show ?thesis
      by (auto simp: main_def Let_def)
  qed
qed

text \<open>
  Claim C2, as the code has it. When the schema source supplies no \<open>TY\<close>, loading the
  schema raises \<open>ValueError\<close>. The failure is not fatal to the run: every stage loads the
  schema first, catches the failure, reports it and returns, and \<open>main\<close> goes on to the
  next input file and the next stage, so the load is attempted and fails once for every
  RIS file, once for the merge and once more for the serialization if a merged table is
  already there. No stage gets further than the load: no file is changed, no file is
  opened for writing, and no file other than the schema source is opened for reading.
\<close>

theorem C2_schema_failure_stops_every_stage:
  assumes "files w standards_path = Some (Table rows)" and "\<not> has_TY_row rows"
  shows "fst (load_ris_standards standards_path w) = Inl ValueError \<and>
         files (main env w) = files w \<and>
         take (length (events w)) (events (main env w)) = events w \<and>
         list_all (only_schema_access standards_path)
           (drop (length (events w)) (events (main env w))) \<and>
         load_failures standards_path (drop (length (events w)) (events (main env w))) =
           (if glob_files env (files w) ris_folder ''*.ris'' = [] then 0
            else length (glob_files env (files w) ris_folder ''*.ris'') + 1 +
                 (if files w merged_output_csv = None then 0 else 1))"
  using load_without_TY[OF assms] main_without_TY[OF assms, of env]
  unfolding schema_failure_step_def by blast

theorem C2_schema_failure_stops_every_stage_witness:
  "fst (load_ris_standards standards_path no_TY_world) = Inl ValueError \<and>
   files (main no_TY_env no_TY_world) = files no_TY_world \<and>
   list_all (only_schema_access standards_path) (events (main no_TY_env no_TY_world)) \<and>
   load_failures standards_path (events (main no_TY_env no_TY_world)) = 3"
proof -
  have t: "files no_TY_world standards_path = Some (Table [[''AU'', ''Author'']])"
    by code_simp
  have n: "\<not> has_TY_row [[''AU'', ''Author'']]"
    by code_simp
  have e: "events no_TY_world = []"
    by (simp add: no_TY_world_def)
  have g: "glob_files no_TY_env (files no_TY_world) ris_folder ''*.ris'' =
             [in_folder ris_folder ''a.ris'', in_folder ris_folder ''b.ris'']"
    by (simp add: no_TY_env_def)
  have m: "files no_TY_world merged_output_csv = None"
    by code_simp
  from C2_schema_failure_stops_every_stage[OF t n, of no_TY_env] show ?thesis
    by (simp add: e g m)
qed

text \<open>
  Claim C2 as stated fails: the run does not halt at the failure of the schema. With two
  RIS files, the schema is loaded, and fails, three times: after the failure for
  \<open>a.ris\<close> comes the conversion of \<open>b.ris\<close>, and after it the merge.
\<close>

theorem C2_run_continues_counterexample:
  "events (main no_TY_env no_TY_world) =
     [OpenRead standards_path, Print (TYNotFound [''AU'']),
      Print (ErrorLoading standards_path ValueError),
      Print (ErrorConverting (in_folder ris_folder ''a.ris'')
               (in_folder csv_output_folder ''a.csv'') ValueError),
      OpenRead standards_path, Print (TYNotFound [''AU'']),
      Print (ErrorLoading standards_path ValueError),
      Print (ErrorConverting (in_folder ris_folder ''b.ris'')
               (in_folder csv_output_folder ''b.csv'') ValueError),
      OpenRead standards_path, Print (TYNotFound [''AU'']),
      Print (ErrorLoading standards_path ValueError),
      Print (ErrorMerging merged_output_csv ValueError),
      Print (MergedNotFound merged_output_csv)]"
  by code_simp

section \<open>Properties of the round trip\<close>

subsection \<open>Lines\<close>




subsection \<open>Tag lines are read back\<close>











subsection \<open>What a record that survives the round trip holds\<close>






subsection \<open>The serialized text, line by line\<close>









subsection \<open>The rows that the serializer reads are the projected rows\<close>






subsection \<open>The parser reads the blocks back\<close>


















end
